theory Spec2Isabelle
  imports Complex_Main
begin

section \<open>Python values\<close>

text \<open>
  The calculator is one Python module, \<^verbatim>\<open>ISO_Smallspot_Safety_Calculator.py\<close>. Its numbers
  are Python floats. They are modelled as real numbers: rounding, overflow and NaN are outside
  the model. The one non-finite value the module writes itself, \<^verbatim>\<open>float('inf')\<close>, is the
  constructor \<open>Infinite\<close>; it is only ever stored, compared and tested for truth.

  Strings are lists of code points below 256 (\<open>char\<close> read as Latin-1), so the micro sign
  is \<open>CHR 0xB5\<close>.
\<close>

datatype error = ValueError | ZeroDivisionError | KeyError | TypeError

datatype pyfloat = Finite real | Infinite

text \<open>Truth value of an optional float in an \<^verbatim>\<open>if\<close>: \<^verbatim>\<open>None\<close> and \<^verbatim>\<open>0.0\<close> are false.\<close>

fun truthy :: "pyfloat option \<Rightarrow> bool" where
  "truthy None = False"
| "truthy (Some (Finite x)) = (x \<noteq> 0)"
| "truthy (Some Infinite) = True"

text \<open>The comparison \<^verbatim>\<open>a < b\<close> of two floats either of which may be \<^verbatim>\<open>inf\<close>.\<close>

fun float_lt :: "pyfloat \<Rightarrow> pyfloat \<Rightarrow> bool" where
  "float_lt (Finite a) (Finite b) = (a < b)"
| "float_lt (Finite a) Infinite = True"
| "float_lt Infinite b = False"

text \<open>\<^verbatim>\<open>a / b\<close> on floats raises on a zero divisor.\<close>

definition truediv :: "real \<Rightarrow> real \<Rightarrow> error + real" where
  "truediv a b = (if b = 0 then Inl ZeroDivisionError else Inr (a / b))"

text \<open>\<^verbatim>\<open>d[k]\<close> on a dict, kept as an association list in insertion order.\<close>

definition getitem :: "('k \<times> 'v) list \<Rightarrow> 'k \<Rightarrow> error + 'v" where
  "getitem d k = (case map_of d k of None \<Rightarrow> Inl KeyError | Some v \<Rightarrow> Inr v)"

text \<open>A statement that raises ends the function; otherwise the next one runs.\<close>

definition and_then :: "error + 'a \<Rightarrow> ('a \<Rightarrow> error + 'b) \<Rightarrow> error + 'b" where
  "and_then m f = (case m of Inl e \<Rightarrow> Inl e | Inr v \<Rightarrow> f v)"

section \<open>Metric prefix parser\<close>

text \<open>\<^verbatim>\<open>str.isspace\<close> on code points below 256; it is also what \<^verbatim>\<open>\s\<close> matches.\<close>

definition isspace :: "char \<Rightarrow> bool" where
  "isspace c = (c \<in> set [CHR 0x09, CHR 0x0A, CHR 0x0B, CHR 0x0C, CHR 0x0D,
                          CHR 0x1C, CHR 0x1D, CHR 0x1E, CHR 0x1F, CHR 0x20,
                          CHR 0x85, CHR 0xA0])"

definition strip :: "string \<Rightarrow> string" where
  "strip s = rev (dropWhile isspace (rev (dropWhile isspace s)))"

text \<open>\<^verbatim>\<open>str.lower\<close> on code points below 256: A-Z, and the accented capitals
  \<open>0xC0\<close> to \<open>0xDE\<close> without the multiplication sign \<open>0xD7\<close>.\<close>

definition lower_char :: "char \<Rightarrow> char" where
  "lower_char c =
     (let n = (of_char c :: nat)
      in if (65 \<le> n \<and> n \<le> 90) \<or> (192 \<le> n \<and> n \<le> 222 \<and> n \<noteq> 215)
         then char_of (n + 32) else c)"

definition lower :: "string \<Rightarrow> string" where
  "lower s = map lower_char s"

text \<open>\<^verbatim>\<open>.replace("\<mu>", "u")\<close>: one code point for one code point.\<close>

definition replace_micro :: "string \<Rightarrow> string" where
  "replace_micro s = map (\<lambda>c. if c = CHR 0xB5 then CHR ''u'' else c) s"

definition is_numch :: "char \<Rightarrow> bool" where
  "is_numch c = (c \<in> set ''0123456789.'')"

definition is_prefixch :: "char \<Rightarrow> bool" where
  "is_prefixch c = (c \<in> set ''tgmkmunpf'')"

text \<open>
  \<^verbatim>\<open>re.match(r"([0-9.]+)\s*([tgmkmunpf]?)", s)\<close>: the match is anchored at the start of
  the string only. Each part is greedy and every later part can match the empty string, so
  the first group is the longest leading run of digits and dots, and the second group is
  the character after the following white space if it is a prefix letter. The result is
  the pair of groups, \<open>None\<close> when there is no match.
\<close>

definition re_match :: "string \<Rightarrow> (string \<times> string) option" where
  "re_match s =
     (let num = takeWhile is_numch s;
          rest = dropWhile isspace (dropWhile is_numch s)
      in if num = [] then None
         else Some (num, case rest of [] \<Rightarrow> [] | c # _ \<Rightarrow> if is_prefixch c then [c] else []))"

definition digit_val :: "char \<Rightarrow> nat" where
  "digit_val c = of_char c - 48"

definition digits_val :: "string \<Rightarrow> nat" where
  "digits_val ds = foldl (\<lambda>n c. 10 * n + digit_val c) 0 ds"

text \<open>
  \<^verbatim>\<open>float(num)\<close> on a string of digits and dots, which is all that the first group can
  hold: a numeral has at most one dot and at least one digit, anything else raises
  \<^verbatim>\<open>ValueError\<close>.
\<close>

definition py_float :: "string \<Rightarrow> error + real" where
  "py_float num =
     (let ip = takeWhile (\<lambda>c. c \<noteq> CHR ''.'') num;
          after = dropWhile (\<lambda>c. c \<noteq> CHR ''.'') num
      in case after of
           [] \<Rightarrow> if ip = [] then Inl ValueError else Inr (real (digits_val ip))
         | _ # fp \<Rightarrow>
             if CHR ''.'' \<in> set fp \<or> (ip = [] \<and> fp = []) then Inl ValueError
             else Inr (real (digits_val ip) + real (digits_val fp) / 10 ^ length fp))"

definition scale :: "(string \<times> real) list" where
  "scale = [(''t'', 10 ^ 12), (''g'', 10 ^ 9), (''m'', 1 / 10 ^ 3), (''k'', 10 ^ 3),
            (''u'', 1 / 10 ^ 6), (''n'', 1 / 10 ^ 9), (''p'', 1 / 10 ^ 12),
            (''f'', 1 / 10 ^ 15), ('''', 1)]"

definition parse_value :: "string \<Rightarrow> error + real" where
  "parse_value val_str =
     (let s = replace_micro (lower (strip val_str))
      in case re_match s of
           None \<Rightarrow> Inl ValueError
         | Some (num, prefix) \<Rightarrow>
             and_then (py_float num) (\<lambda>x.
             and_then (getitem scale prefix) (\<lambda>sc. Inr (x * sc))))"

text \<open>
  The shape of a decimal numeral over digits and dots, for stating when the parser fails:
  at least one digit and at most one dot.
\<close>

definition numeral_ok :: "string \<Rightarrow> bool" where
  "numeral_ok ds =
     (filter (\<lambda>c. c \<noteq> CHR ''.'') ds \<noteq> [] \<and> length (filter (\<lambda>c. c = CHR ''.'') ds) \<le> 1)"

section \<open>Spectral weighting tables\<close>

definition R_TABLE :: "(int \<times> real) list" where
  "R_TABLE = [(400, 2), (410, 2), (420, 2), (430, 2), (440, 2),
              (450, 2), (455, 2), (460, 2), (470, 2), (480, 2),
              (490, 2), (500, 2)]"

definition B_TABLE :: "(int \<times> real) list" where
  "B_TABLE = [(400, 0.060), (410, 0.180), (420, 0.900), (430, 0.980), (440, 0.970),
              (450, 0.940), (455, 0.900), (460, 0.800), (470, 0.630), (480, 0.550),
              (490, 0.420), (500, 0.320)]"

text \<open>
  \<^verbatim>\<open>min(iterable, key=f)\<close>: the candidate is replaced only by a strictly smaller key, so
  the first minimal element wins; an empty iterable raises \<^verbatim>\<open>ValueError\<close>.
\<close>

fun min_from :: "('a \<Rightarrow> real) \<Rightarrow> 'a \<Rightarrow> 'a list \<Rightarrow> 'a" where
  "min_from f best [] = best"
| "min_from f best (x # xs) = min_from f (if f x < f best then x else best) xs"

definition min_key :: "('a \<Rightarrow> real) \<Rightarrow> 'a list \<Rightarrow> error + 'a" where
  "min_key f xs = (case xs of [] \<Rightarrow> Inl ValueError | x # xs' \<Rightarrow> Inr (min_from f x xs'))"

definition nearest_nm_keys :: "real \<Rightarrow> int list \<Rightarrow> error + int" where
  "nearest_nm_keys nm table_keys = min_key (\<lambda>k. \<bar>real_of_int k - nm\<bar>) table_keys"

text \<open>The default argument: the keys of \<open>R_TABLE\<close>.\<close>

definition nearest_nm :: "real \<Rightarrow> error + int" where
  "nearest_nm nm = nearest_nm_keys nm (map fst R_TABLE)"

section \<open>The hazard evaluation\<close>

text \<open>
  \<^verbatim>\<open>iso15004_smallspot\<close> computes its quantities into local variables, prints a report
  and returns nothing. The record holds the local variables as they are when the report
  starts; \<^verbatim>\<open>None\<close> is \<open>None\<close>.
\<close>

record hazard =
  nm :: int
  R :: real
  B :: real
  E_pulse :: real
  E_pulse_eff :: real
  single_margin :: pyfloat
  E_eff :: real
  thermal_limit :: "real option"
  thermal_margin :: "pyfloat option"
  E_photo :: real
  H_photo :: "real option"
  photo_margin :: "pyfloat option"
  governing :: string
  t_safe_photo :: pyfloat

definition gate :: real where
  "gate = 62 / 100000"

definition single_limit :: real where
  "single_limit = 40 / 10 ^ 9"

definition photo_limit :: real where
  "photo_limit = 22 / 10"

text \<open>The fixed small-spot aperture: diameter in mm, radius in cm, area in square cm.\<close>

definition d_mm :: real where
  "d_mm = 3 / 100"

definition r_cm :: real where
  "r_cm = (d_mm / 2) / 10"

definition A_cm2 :: real where
  "A_cm2 = pi * r_cm ^ 2"

text \<open>The two substitution rules, in the order of the source.\<close>

definition rule_short_pulse :: "real \<Rightarrow> real \<Rightarrow> real" where
  "rule_short_pulse pulse_duration_s R0 =
     (if pulse_duration_s < 1 / 10 ^ 11 \<and> R0 < 1 then 1 else R0)"

definition rule_long_dwell :: "real \<Rightarrow> real \<Rightarrow> real" where
  "rule_long_dwell dwell_time_s R1 = (if dwell_time_s > 10 \<and> R1 > 1 then 1 else R1)"

text \<open>The classification of the governing hazard.\<close>

definition classify :: "real \<Rightarrow> pyfloat option \<Rightarrow> pyfloat option \<Rightarrow> string" where
  "classify dwell_time_s tm pm =
     (if dwell_time_s \<le> gate then ''Thermal only (photochemical not applicable)''
      else if truthy tm \<and> truthy pm then
             (case (tm, pm) of
                (Some t, Some p) \<Rightarrow> if float_lt p t then ''Photochemical'' else ''Thermal''
              | _ \<Rightarrow> ''Indeterminate'')
      else if truthy tm then ''Thermal''
      else if truthy pm then ''Photochemical''
      else ''Indeterminate'')"

text \<open>Lines 50 to 102 of the function: everything before the report.\<close>

definition quantities :: "real \<Rightarrow> real \<Rightarrow> real \<Rightarrow> real \<Rightarrow> real \<Rightarrow> error + hazard" where
  "quantities wavelength_nm power_pupil_W dwell_time_s rep_rate_Hz pulse_duration_s =
     and_then (nearest_nm wavelength_nm) (\<lambda>k.
     and_then (getitem R_TABLE k) (\<lambda>R0.
     and_then (getitem B_TABLE k) (\<lambda>B0.
       (let R2 = rule_long_dwell dwell_time_s (rule_short_pulse pulse_duration_s R0)
        in and_then (truediv power_pupil_W rep_rate_Hz) (\<lambda>Ep.
       (let Epe = R2 * Ep;
            sm = (if Epe > 0 then Finite (single_limit / Epe) else Infinite);
            Ee = R2 * power_pupil_W * dwell_time_s;
            tlim = (if dwell_time_s > gate
                    then Some (17 / 10 * (dwell_time_s powr (75 / 100)) * (1 / 10 ^ 3))
                    else None);
            tm = (case tlim of
                    None \<Rightarrow> None
                  | Some l \<Rightarrow> Some (if Ee > 0 then Finite (l / Ee) else Infinite))
        in and_then (truediv (power_pupil_W * B0) A_cm2) (\<lambda>Eph.
       (let Hp = (if dwell_time_s > gate then Some (Eph * dwell_time_s) else None);
            pm = (case Hp of
                    None \<Rightarrow> None
                  | Some h \<Rightarrow> Some (if h > 0 then Finite (photo_limit / h) else Infinite))
        in Inr \<lparr> nm = k, R = R2, B = B0, E_pulse = Ep, E_pulse_eff = Epe,
                 single_margin = sm, E_eff = Ee, thermal_limit = tlim, thermal_margin = tm,
                 E_photo = Eph, H_photo = Hp, photo_margin = pm,
                 governing = classify dwell_time_s tm pm,
                 t_safe_photo =
                   (if Eph > 0 then Finite (photo_limit / Eph) else Infinite) \<rparr>))))))))"

text \<open>
  The report, one value per \<^verbatim>\<open>print\<close> call, with the values the call formats. The number
  formats themselves are not modelled.
\<close>

datatype out_line =
    Banner
  | Wavelength_line int
  | Pulse_duration_line real
  | Exposure_time_line real
  | Power_line real
  | Rep_rate_line real
  | Spot_line
  | Spectral_header
  | R_line real
  | B_line real
  | Single_header
  | Pulse_energy_line real
  | Weighted_pulse_line real
  | Single_limit_line
  | Margin_line pyfloat
  | Thermal_header
  | Weighted_energy_line real
  | Thermal_limit_line real
  | Photo_header
  | E_photo_line real
  | Dose_line real
  | Photo_limit_line
  | Governing_line string
  | Safe_time_line pyfloat
  | Not_applicable_line
  | Footer

text \<open>Formatting \<^verbatim>\<open>None\<close> with a float format raises \<^verbatim>\<open>TypeError\<close>.\<close>

definition report :: "real \<Rightarrow> real \<Rightarrow> real \<Rightarrow> real \<Rightarrow> hazard \<Rightarrow> error + out_line list" where
  "report power_pupil_W dwell_time_s rep_rate_Hz pulse_duration_s h =
     (let top = [Banner, Wavelength_line (nm h), Pulse_duration_line pulse_duration_s,
                 Exposure_time_line dwell_time_s, Power_line power_pupil_W,
                 Rep_rate_line rep_rate_Hz, Spot_line,
                 Spectral_header, R_line (R h), B_line (B h),
                 Single_header, Pulse_energy_line (E_pulse h),
                 Weighted_pulse_line (E_pulse_eff h), Single_limit_line,
                 Margin_line (single_margin h)]
      in if dwell_time_s > gate then
           (case (thermal_limit h, thermal_margin h, H_photo h, photo_margin h) of
              (Some tlim, Some tm, Some hp, Some pm) \<Rightarrow>
                Inr (top @ [Thermal_header, Weighted_energy_line (E_eff h),
                            Thermal_limit_line tlim, Margin_line tm,
                            Photo_header, E_photo_line (E_photo h), Dose_line hp,
                            Photo_limit_line, Margin_line pm,
                            Governing_line (governing h), Safe_time_line (t_safe_photo h),
                            Footer])
            | _ \<Rightarrow> Inl TypeError)
         else Inr (top @ [Not_applicable_line, Governing_line (governing h), Footer]))"

text \<open>
  The whole function: what it prints and what it returns. There is no \<^verbatim>\<open>return\<close>
  statement, so the returned value is \<^verbatim>\<open>None\<close>, here \<open>()\<close>.
\<close>

definition iso15004_smallspot ::
    "real \<Rightarrow> real \<Rightarrow> real \<Rightarrow> real \<Rightarrow> real \<Rightarrow> error + (out_line list \<times> unit)" where
  "iso15004_smallspot wavelength_nm power_pupil_W dwell_time_s rep_rate_Hz pulse_duration_s =
     and_then
       (quantities wavelength_nm power_pupil_W dwell_time_s rep_rate_Hz pulse_duration_s)
       (\<lambda>h. and_then (report power_pupil_W dwell_time_s rep_rate_Hz pulse_duration_s h)
               (\<lambda>out. Inr (out, ())))"

text \<open>The defaults of the last two parameters.\<close>

definition default_rep_rate_Hz :: real where
  "default_rep_rate_Hz = 59 * 10 ^ 6"

definition default_pulse_duration_s :: real where
  "default_pulse_duration_s = 6 / 10 ^ 12"

section \<open>Properties of the minimum search and of the tables\<close>

lemma min_from_mem: "min_from f b xs \<in> set (b # xs)"
  by (induction xs arbitrary: b) auto

lemma min_from_le_best: "f (min_from f b xs) \<le> f b"
proof (induction xs arbitrary: b)
  case Nil
  show ?case by simp
next
  case (Cons x xs)
  have "f (min_from f (if f x < f b then x else b) xs) \<le> f (if f x < f b then x else b)"
    by (rule Cons.IH)
  also have "\<dots> \<le> f b" by simp
  finally show ?case by simp
qed

lemma min_from_le: "y \<in> set (b # xs) \<Longrightarrow> f (min_from f b xs) \<le> f y"
proof (induction xs arbitrary: b)
  case Nil
  then show ?case by simp
next
  case (Cons x xs)
  let ?b = "if f x < f b then x else b"
  have best: "f (min_from f ?b xs) \<le> f ?b" by (rule min_from_le_best)
  from Cons.prems consider "y = b" | "y = x" | "y \<in> set xs" by auto
  then show ?case
  proof cases
    case 1
    with best show ?thesis by (simp split: if_splits)
  next
    case 2
    with best show ?thesis by (simp split: if_splits)
  next
    case 3
    then have "y \<in> set (?b # xs)" by simp
    from Cons.IH [OF this] show ?thesis by simp
  qed
qed

lemma min_from_lowest:
  fixes b :: "'a::linorder"
  assumes "\<forall>x\<in>set xs. b \<le> x" and "sorted xs" and "y \<in> set (b # xs)"
    and "f y = f (min_from f b xs)"
  shows "min_from f b xs \<le> y"
  using assms
proof (induction xs arbitrary: b y)
  case Nil
  then show ?case by simp
next
  case (Cons x xs)
  let ?b = "if f x < f b then x else b"
  have bx: "b \<le> x" using Cons.prems(1) by simp
  have lower: "\<forall>z\<in>set xs. ?b \<le> z" using Cons.prems(1,2) by auto
  have srt: "sorted xs" using Cons.prems(2) by simp
  have eq: "f y = f (min_from f ?b xs)" using Cons.prems(4) by simp
  have best: "f (min_from f ?b xs) \<le> f ?b" by (rule min_from_le_best)
  show ?case
  proof (cases "y \<in> set (?b # xs)")
    case True
    from Cons.IH [OF lower srt True eq] show ?thesis by simp
  next
    case False
    with Cons.prems(3) have fx: "f x < f b \<and> y = b \<or> \<not> f x < f b \<and> y = x"
      by (auto split: if_splits)
    then show ?thesis
    proof
      assume "f x < f b \<and> y = b"
      with eq best show ?thesis by simp
    next
      assume a: "\<not> f x < f b \<and> y = x"
      then have fb: "f b = f (min_from f b xs)" using eq best by simp
      have lb: "\<forall>z\<in>set xs. b \<le> z" using Cons.prems(1) by simp
      have "min_from f b xs \<le> b"
        by (rule Cons.IH [OF lb srt _ fb]) simp
      with a bx show ?thesis by simp
    qed
  qed
qed



declare min_from.simps [simp del]

lemma R_keys: "map fst R_TABLE = [400, 410, 420, 430, 440, 450, 455, 460, 470, 480, 490, 500]"
  by (simp add: R_TABLE_def)

lemma B_keys: "map fst B_TABLE = map fst R_TABLE"
  by (simp add: R_TABLE_def B_TABLE_def)

lemma nearest_nm_eq:
  "nearest_nm w = Inr (min_from (\<lambda>k. \<bar>real_of_int k - w\<bar>) 400
                         [410, 420, 430, 440, 450, 455, 460, 470, 480, 490, 500])"
  by (simp add: nearest_nm_def nearest_nm_keys_def min_key_def R_keys)

lemma nearest_nm_key: "\<exists>k. nearest_nm w = Inr k \<and> k \<in> set (map fst R_TABLE)"
proof -
  have "min_from (\<lambda>k. \<bar>real_of_int k - w\<bar>) 400
          [410, 420, 430, 440, 450, 455, 460, 470, 480, 490, 500]
        \<in> set (400 # [410, 420, 430, 440, 450, 455, 460, 470, 480, 490, 500])"
    by (rule min_from_mem)
  then show ?thesis
    unfolding nearest_nm_eq R_keys by simp
qed

lemma map_of_R:
  assumes "k \<in> set (map fst R_TABLE)"
  shows "map_of R_TABLE k = Some 2"
proof -
  from assms have "map_of R_TABLE k \<noteq> None" by (simp add: map_of_eq_None_iff)
  then obtain v where v: "map_of R_TABLE k = Some v" by blast
  then have "(k, v) \<in> set R_TABLE" by (rule map_of_SomeD)
  then have "v = 2" by (auto simp add: R_TABLE_def)
  with v show ?thesis by simp
qed

lemma getitem_R: "k \<in> set (map fst R_TABLE) \<Longrightarrow> getitem R_TABLE k = Inr 2"
  by (simp add: getitem_def map_of_R)

lemma B_positive: "map_of B_TABLE k = Some b \<Longrightarrow> 0 < b"
  unfolding B_TABLE_def by (simp split: if_splits)

lemma getitem_B:
  assumes "k \<in> set (map fst R_TABLE)"
  shows "\<exists>b. getitem B_TABLE k = Inr b \<and> 0 < b"
proof -
  from assms have "k \<in> fst ` set B_TABLE" by (simp add: B_keys [symmetric])
  then have "map_of B_TABLE k \<noteq> None" by (simp add: map_of_eq_None_iff)
  then obtain b where b: "map_of B_TABLE k = Some b" by blast
  then have "0 < b" by (rule B_positive)
  with b show ?thesis by (simp add: getitem_def)
qed

section \<open>The spectral table and the nearest wavelength\<close>

text \<open>
  Claim C3, as the code has it. The table has twelve wavelengths: 400 to 500 in steps of
  ten, and 455 between 450 and 460. For every wavelength \<open>nearest_nm\<close> returns a key of
  the table. For a wavelength of magnitude at most \<open>1e15\<close> no key is nearer to the input
  than this one, and of the keys at the same distance it is the lowest. The bound is where
  the distances of the model, which are exact, and the rounded distances of the code still
  order the keys alike; far beyond it all rounded distances are equal and the code returns
  the first key.
\<close>

theorem nearest_nm_minimises:
  "map fst R_TABLE = [400, 410, 420, 430, 440, 450, 455, 460, 470, 480, 490, 500] \<and>
   length R_TABLE = 12 \<and>
   (\<exists>k. nearest_nm w = Inr k \<and> k \<in> set (map fst R_TABLE) \<and>
        (\<bar>w\<bar> \<le> 10 ^ 15 \<longrightarrow>
           (\<forall>k'\<in>set (map fst R_TABLE). \<bar>real_of_int k - w\<bar> \<le> \<bar>real_of_int k' - w\<bar>) \<and>
           (\<forall>k'\<in>set (map fst R_TABLE).
               \<bar>real_of_int k' - w\<bar> = \<bar>real_of_int k - w\<bar> \<longrightarrow> k \<le> k')))"
proof -
  define f where "f = (\<lambda>k::int. \<bar>real_of_int k - w\<bar>)"
  define xs where "xs = [410, 420, 430, 440, 450, 455, 460, 470, 480, 490, 500 :: int]"
  define k where "k = min_from f 400 xs"
  have keys: "map fst R_TABLE = 400 # xs" by (simp add: R_keys xs_def)
  have res: "nearest_nm w = Inr k" by (simp add: nearest_nm_eq k_def f_def xs_def)
  have mem: "k \<in> set (400 # xs)" unfolding k_def by (rule min_from_mem)
  have least: "f k \<le> f k'" if "k' \<in> set (400 # xs)" for k'
    unfolding k_def using that by (rule min_from_le)
  have low: "\<forall>x\<in>set xs. (400::int) \<le> x" by (simp add: xs_def)
  have srt: "sorted xs" by (simp add: xs_def)
  have first: "k \<le> k'" if "k' \<in> set (400 # xs)" and "f k' = f k" for k'
    unfolding k_def using low srt that(1) that(2) [unfolded k_def] by (rule min_from_lowest)
  have len: "length R_TABLE = 12" by (simp add: R_TABLE_def)
  have "k \<in> set (map fst R_TABLE) \<and>
        (\<forall>k'\<in>set (map fst R_TABLE). f k \<le> f k') \<and>
        (\<forall>k'\<in>set (map fst R_TABLE). f k' = f k \<longrightarrow> k \<le> k')"
    unfolding keys using mem least first by blast
  then show ?thesis
    using R_keys len res unfolding f_def by blast
qed

theorem nearest_nm_minimises_witness:
  "\<bar>405 :: real\<bar> \<le> 10 ^ 15 \<and> nearest_nm 405 = Inr 400 \<and> (410::int) \<in> set (map fst R_TABLE) \<and>
   \<bar>real_of_int 400 - 405\<bar> \<le> \<bar>real_of_int 410 - 405\<bar> \<and>
   \<bar>real_of_int 410 - 405\<bar> = \<bar>real_of_int 400 - 405\<bar> \<and> (400::int) \<le> 410"
proof -
  have b: "\<bar>405 :: real\<bar> \<le> 10 ^ 15" by simp
  from nearest_nm_minimises [of 405] b obtain k where
    k: "nearest_nm 405 = Inr k"
    and least: "\<forall>k'\<in>set (map fst R_TABLE). \<bar>real_of_int k - 405\<bar> \<le> \<bar>real_of_int k' - 405\<bar>"
    and tie: "\<forall>k'\<in>set (map fst R_TABLE).
        \<bar>real_of_int k' - 405\<bar> = \<bar>real_of_int k - 405\<bar> \<longrightarrow> k \<le> k'"
    by blast
  have "nearest_nm 405 = Inr 400"
    by (simp add: nearest_nm_eq min_from.simps)
  with k have k4: "k = 400" by simp
  have m: "(410::int) \<in> set (map fst R_TABLE)" by (simp add: R_keys)
  from least m k4 have l: "\<bar>real_of_int 400 - 405\<bar> \<le> \<bar>real_of_int 410 - 405\<bar>" by blast
  have e: "\<bar>real_of_int 410 - 405\<bar> = \<bar>real_of_int 400 - 405\<bar>" by simp
  from tie m k4 e have t: "(400::int) \<le> 410" by blast
  from b k k4 m l e t show ?thesis by blast
qed

text \<open>
  Claim C3 as stated has every table point on the 10 nm grid. At 455 the function returns
  455, which is not a multiple of ten.
\<close>

theorem nearest_nm_off_grid: "nearest_nm 455 = Inr 455 \<and> \<not> (10::int) dvd 455"
  by (simp add: nearest_nm_eq min_from.simps)

text \<open>
  Claim C10. The two tables have the same keys, \<open>nearest_nm\<close> returns one of them for every
  wavelength, both subscripts of the evaluation find their entry, and no input makes the
  evaluation end in \<^verbatim>\<open>KeyError\<close>.
\<close>

theorem table_lookups_succeed:
  "set (map fst R_TABLE) = set (map fst B_TABLE) \<and>
   (\<exists>k r b. nearest_nm w = Inr k \<and> k \<in> set (map fst R_TABLE) \<and>
            getitem R_TABLE k = Inr r \<and> getitem B_TABLE k = Inr b) \<and>
   quantities w p d rep pd \<noteq> Inl KeyError"
proof -
  obtain k where k: "nearest_nm w = Inr k" "k \<in> set (map fst R_TABLE)"
    using nearest_nm_key by blast
  have r: "getitem R_TABLE k = Inr 2" using k(2) by (rule getitem_R)
  obtain b where b: "getitem B_TABLE k = Inr b" using getitem_B [OF k(2)] by blast
  have "quantities w p d rep pd \<noteq> Inl KeyError"
    using k(1) r b by (simp add: quantities_def and_then_def truediv_def Let_def)
  moreover have "set (map fst R_TABLE) = set (map fst B_TABLE)" by (simp add: B_keys)
  ultimately show ?thesis using k r b by blast
qed

section \<open>The evaluation unfolded\<close>

lemma A_cm2_pos: "0 < A_cm2"
  by (simp add: A_cm2_def r_cm_def d_mm_def)

lemma short_pulse_table: "rule_short_pulse pd 2 = 2"
  by (simp add: rule_short_pulse_def)

lemma long_dwell_table: "rule_long_dwell d 2 = (if d > 10 then 1 else 2)"
  by (simp add: rule_long_dwell_def)

lemma quantities_run:
  fixes w p d rep pd :: real and k :: int and b :: real
  defines "r2 \<equiv> rule_long_dwell d 2"
  defines "tlm \<equiv> 17 / 10 * (d powr (75 / 100)) * (1 / 10 ^ 3)"
  defines "tm \<equiv> (if d > gate
                   then Some (if r2 * p * d > 0 then Finite (tlm / (r2 * p * d)) else Infinite)
                   else None)"
  defines "pm \<equiv> (if d > gate
                   then Some (if p * b / A_cm2 * d > 0
                              then Finite (photo_limit / (p * b / A_cm2 * d)) else Infinite)
                   else None)"
  assumes "nearest_nm w = Inr k" and "k \<in> set (map fst R_TABLE)"
    and "getitem B_TABLE k = Inr b" and "rep \<noteq> 0"
  shows "quantities w p d rep pd =
         Inr \<lparr> nm = k, R = r2, B = b, E_pulse = p / rep, E_pulse_eff = r2 * (p / rep),
               single_margin = (if r2 * (p / rep) > 0
                                then Finite (single_limit / (r2 * (p / rep))) else Infinite),
               E_eff = r2 * p * d,
               thermal_limit = (if d > gate then Some tlm else None),
               thermal_margin = tm,
               E_photo = p * b / A_cm2,
               H_photo = (if d > gate then Some (p * b / A_cm2 * d) else None),
               photo_margin = pm,
               governing = classify d tm pm,
               t_safe_photo = (if p * b / A_cm2 > 0
                               then Finite (photo_limit / (p * b / A_cm2)) else Infinite) \<rparr>"
proof -
  have r: "getitem R_TABLE k = Inr 2" using assms(6) by (rule getitem_R)
  have a: "A_cm2 \<noteq> 0" using A_cm2_pos by simp
  show ?thesis
    unfolding quantities_def and_then_def truediv_def Let_def r2_def tlm_def tm_def pm_def
    using assms(5,7,8) r a by (simp add: short_pulse_table)
qed

lemma quantities_zero_rep: "quantities w p d 0 pd = Inl ZeroDivisionError"
proof -
  obtain k where k: "nearest_nm w = Inr k" "k \<in> set (map fst R_TABLE)"
    using nearest_nm_key by blast
  obtain b where b: "getitem B_TABLE k = Inr b"
    using getitem_B [OF k(2)] by blast
  show ?thesis
    by (simp add: quantities_def and_then_def truediv_def Let_def k(1) b getitem_R [OF k(2)])
qed

lemma quantities_cases:
  assumes "rep \<noteq> 0"
  obtains k b where "nearest_nm w = Inr k" and "k \<in> set (map fst R_TABLE)"
    and "getitem B_TABLE k = Inr b" and "0 < b"
proof -
  obtain k where k: "nearest_nm w = Inr k" "k \<in> set (map fst R_TABLE)"
    using nearest_nm_key by blast
  obtain b where b: "getitem B_TABLE k = Inr b" "0 < b"
    using getitem_B [OF k(2)] by blast
  from k b show ?thesis by (rule that)
qed

section \<open>The governing hazard\<close>

text \<open>
  Claim C1 has the governing hazard decided by comparing the two margins whenever the
  dwell time is above \<open>6.2e-4\<close> s, where both are computed. The function marks a margin
  that is missing by \<^verbatim>\<open>None\<close>, but it tests the margins for truth, and \<^verbatim>\<open>0.0\<close> is false
  like \<^verbatim>\<open>None\<close>. A margin is \<^verbatim>\<open>0.0\<close> when its energy term has overflowed to \<^verbatim>\<open>inf\<close>: at
  430 nm, 1 s and \<open>1e308\<close> W the floating-point margins are both \<^verbatim>\<open>0.0\<close>, and at \<open>1e307\<close> W
  the thermal margin is \<open>8.5e-311\<close> and the photochemical one \<^verbatim>\<open>0.0\<close>. The overflow is
  outside the arithmetic of \<open>quantities\<close>; the classification of the source is evaluated
  here on these margins. With both at zero it answers \<^verbatim>\<open>Indeterminate\<close>; with the
  photochemical margin at zero, below the thermal one, it answers \<^verbatim>\<open>Thermal\<close>.
\<close>

theorem zero_margin_counts_as_missing:
  "classify 1 (Some (Finite 0)) (Some (Finite 0)) = ''Indeterminate'' \<and>
   float_lt (Finite 0) (Finite (85 / 10 ^ 312)) \<and>
   classify 1 (Some (Finite (85 / 10 ^ 312))) (Some (Finite 0)) = ''Thermal''"
  by (simp add: classify_def gate_def)

section \<open>Short exposures\<close>

text \<open>
  Claim C2. For a dwell time of at most \<open>6.2e-4\<close> s every evaluation that produces its
  quantities leaves \<^verbatim>\<open>thermal_limit\<close>, \<^verbatim>\<open>thermal_margin\<close>, \<^verbatim>\<open>H_photo\<close> and \<^verbatim>\<open>photo_margin\<close>
  at \<^verbatim>\<open>None\<close> and sets the governing hazard to the string
  \<^verbatim>\<open>Thermal only (photochemical not applicable)\<close>; the quantities are produced whenever
  the repetition rate is not zero.
\<close>

theorem short_dwell_no_hazard_fields:
  assumes "d \<le> 62 / 100000"
  shows "(rep \<noteq> 0 \<longrightarrow> (\<exists>h. quantities w p d rep pd = Inr h)) \<and>
         (\<forall>h. quantities w p d rep pd = Inr h \<longrightarrow>
              thermal_limit h = None \<and> thermal_margin h = None \<and>
              H_photo h = None \<and> photo_margin h = None \<and>
              governing h = ''Thermal only (photochemical not applicable)'')"
proof (cases "rep = 0")
  case True
  then show ?thesis by (simp add: quantities_zero_rep)
next
  case False
  obtain k b where kb: "nearest_nm w = Inr k" "k \<in> set (map fst R_TABLE)"
    "getitem B_TABLE k = Inr b"
    using quantities_cases [OF False, of w] by metis
  have g: "\<not> gate < d" using assms by (simp add: gate_def)
  then have c: "classify d None None = ''Thermal only (photochemical not applicable)''"
    by (simp add: classify_def)
  show ?thesis
    using g c by (simp add: quantities_run [OF kb False])
qed

theorem short_dwell_no_hazard_fields_witness:
  "(1 / 10 ^ 5 \<le> (62 / 100000 :: real)) \<and>
   (\<exists>h. quantities 400 (1 / 10 ^ 3) (1 / 10 ^ 5) (59 * 10 ^ 6) (6 / 10 ^ 12) = Inr h \<and>
        thermal_limit h = None \<and> thermal_margin h = None \<and>
        H_photo h = None \<and> photo_margin h = None \<and>
        governing h = ''Thermal only (photochemical not applicable)'')"
proof -
  have h1: "1 / 10 ^ 5 \<le> (62 / 100000 :: real)" by simp
  have h2: "59 * 10 ^ 6 \<noteq> (0::real)" by simp
  from short_dwell_no_hazard_fields [OF h1, of "59 * 10 ^ 6" 400 "1 / 10 ^ 3" "6 / 10 ^ 12"]
  show ?thesis using h1 h2 by blast
qed

section \<open>Exceptions\<close>

text \<open>
  Claim C4 as stated promises that no input with non-negative power, dwell time,
  repetition rate and pulse duration raises. The pulse energy is the power divided by the
  repetition rate, without a guard: at repetition rate zero the function raises
  \<^verbatim>\<open>ZeroDivisionError\<close>.
\<close>

theorem zero_rep_rate_raises:
  "(0::real) \<le> 5 / 10 ^ 6 \<and> (0::real) \<le> 1 / 10 \<and> (0::real) \<le> 0 \<and> (0::real) \<le> 6 / 10 ^ 12 \<and>
   iso15004_smallspot 430 (5 / 10 ^ 6) (1 / 10) 0 (6 / 10 ^ 12) = Inl ZeroDivisionError"
  by (simp add: iso15004_smallspot_def and_then_def quantities_zero_rep)

text \<open>
  Claim C4, as the code has it. With a repetition rate other than zero the function raises
  nothing: it computes its quantities and prints its report. Each margin whose energy term
  is not positive is the infinite sentinel, so is the safe stopped-beam time, and at power
  zero the single-pulse margin and the safe time are infinite, and the thermal and the
  photochemical margin are infinite where they are computed.
\<close>

theorem no_exception_for_nonzero_rep_rate:
  assumes "rep \<noteq> 0"
  shows "\<exists>h out. quantities w p d rep pd = Inr h \<and>
           iso15004_smallspot w p d rep pd = Inr (out, ()) \<and>
           (E_pulse_eff h \<le> 0 \<longrightarrow> single_margin h = Infinite) \<and>
           (E_eff h \<le> 0 \<longrightarrow>
              thermal_margin h = (if 62 / 100000 < d then Some Infinite else None)) \<and>
           (E_photo h * d \<le> 0 \<longrightarrow>
              photo_margin h = (if 62 / 100000 < d then Some Infinite else None)) \<and>
           (E_photo h \<le> 0 \<longrightarrow> t_safe_photo h = Infinite) \<and>
           (p = 0 \<longrightarrow> single_margin h = Infinite \<and> t_safe_photo h = Infinite \<and>
              thermal_margin h = (if 62 / 100000 < d then Some Infinite else None) \<and>
              photo_margin h = (if 62 / 100000 < d then Some Infinite else None))"
proof -
  obtain k b where kb: "nearest_nm w = Inr k" "k \<in> set (map fst R_TABLE)"
    "getitem B_TABLE k = Inr b"
    using quantities_cases [OF assms, of w] by metis
  note run = quantities_run [OF kb assms, of p d pd]
  show ?thesis
    by (simp add: run iso15004_smallspot_def and_then_def report_def gate_def)
qed

theorem no_exception_for_nonzero_rep_rate_witness:
  "(59 * 10 ^ 6 \<noteq> (0::real)) \<and>
   (\<exists>h out. quantities 430 0 1 (59 * 10 ^ 6) (6 / 10 ^ 12) = Inr h \<and>
      iso15004_smallspot 430 0 1 (59 * 10 ^ 6) (6 / 10 ^ 12) = Inr (out, ()) \<and>
      single_margin h = Infinite \<and> t_safe_photo h = Infinite \<and>
      thermal_margin h = Some Infinite \<and> photo_margin h = Some Infinite)"
proof -
  have h: "59 * 10 ^ 6 \<noteq> (0::real)" by simp
  from no_exception_for_nonzero_rep_rate [OF h, of 430 0 1 "6 / 10 ^ 12"]
  show ?thesis using h by auto
qed

section \<open>The substitution rules\<close>

text \<open>
  Claim C7. The weight found in the table goes through the two rules in order: the first
  sets it to 1 when the pulse is shorter than \<open>1e-11\<close> s and the weight is below 1, the
  second sets the result to 1 when the dwell time is above 10 s and the weight is above 1.
  The first rule leaves a weight of at least 1 alone. The evaluation uses exactly this
  weight, and at a dwell time of 20 s the weight is 1, which shows in the weighted pulse
  energy.
\<close>

theorem substitution_rules:
  "rule_short_pulse pd r0 = (if pd < 1 / 10 ^ 11 \<and> r0 < 1 then 1 else r0) \<and>
   rule_long_dwell d r1 = (if d > 10 \<and> r1 > 1 then 1 else r1) \<and>
   (1 \<le> r0 \<longrightarrow> rule_short_pulse pd r0 = r0) \<and>
   (\<forall>h. quantities w p d rep pd = Inr h \<longrightarrow>
      (\<exists>k r. nearest_nm w = Inr k \<and> getitem R_TABLE k = Inr r \<and>
             R h = rule_long_dwell d (rule_short_pulse pd r))) \<and>
   (rep \<noteq> 0 \<longrightarrow>
      (\<exists>h. quantities w p 20 rep pd = Inr h \<and> R h = 1 \<and> E_pulse_eff h = 1 * (p / rep)))"
proof -
  have rules: "rule_short_pulse pd r0 = (if pd < 1 / 10 ^ 11 \<and> r0 < 1 then 1 else r0) \<and>
      rule_long_dwell d r1 = (if d > 10 \<and> r1 > 1 then 1 else r1) \<and>
      (1 \<le> r0 \<longrightarrow> rule_short_pulse pd r0 = r0)"
    by (simp add: rule_short_pulse_def rule_long_dwell_def)
  have used: "\<forall>h. quantities w p d rep pd = Inr h \<longrightarrow>
      (\<exists>k r. nearest_nm w = Inr k \<and> getitem R_TABLE k = Inr r \<and>
             R h = rule_long_dwell d (rule_short_pulse pd r))"
  proof (cases "rep = 0")
    case True
    then show ?thesis by (simp add: quantities_zero_rep)
  next
    case False
    obtain k b where kb: "nearest_nm w = Inr k" "k \<in> set (map fst R_TABLE)"
      "getitem B_TABLE k = Inr b"
      using quantities_cases [OF False, of w] by metis
    show ?thesis
      by (simp add: quantities_run [OF kb False] kb(1) getitem_R [OF kb(2)] short_pulse_table)
  qed
  have twenty: "rep \<noteq> 0 \<longrightarrow>
      (\<exists>h. quantities w p 20 rep pd = Inr h \<and> R h = 1 \<and> E_pulse_eff h = 1 * (p / rep))"
  proof
    assume nz: "rep \<noteq> 0"
    obtain k b where kb: "nearest_nm w = Inr k" "k \<in> set (map fst R_TABLE)"
      "getitem B_TABLE k = Inr b"
      using quantities_cases [OF nz, of w] by metis
    show "\<exists>h. quantities w p 20 rep pd = Inr h \<and> R h = 1 \<and> E_pulse_eff h = 1 * (p / rep)"
      by (simp add: quantities_run [OF kb nz] long_dwell_table)
  qed
  from rules used twenty show ?thesis by blast
qed

theorem substitution_rules_witness:
  "rule_short_pulse (1 / 10 ^ 12) (1 / 2) = 1 \<and>
   rule_short_pulse (1 / 10 ^ 12) 2 = 2 \<and>
   rule_long_dwell 20 2 = 1 \<and>
   (\<exists>h. quantities 430 (5 / 10 ^ 6) 20 (59 * 10 ^ 6) (6 / 10 ^ 12) = Inr h \<and> R h = 1 \<and>
        E_pulse_eff h = 1 * ((5 / 10 ^ 6) / (59 * 10 ^ 6)))"
proof -
  have h: "59 * 10 ^ 6 \<noteq> (0::real)" by simp
  have a: "rule_short_pulse (1 / 10 ^ 12) (1 / 2) = 1"
    using substitution_rules [where pd = "1 / 10 ^ 12" and ?r0.0 = "1 / 2"] by simp
  have b: "rule_short_pulse (1 / 10 ^ 12) 2 = 2"
    using substitution_rules [where pd = "1 / 10 ^ 12" and ?r0.0 = 2] by simp
  have c: "rule_long_dwell 20 2 = 1"
    using substitution_rules [where d = 20 and ?r1.0 = 2] by simp
  have e: "\<exists>h. quantities 430 (5 / 10 ^ 6) 20 (59 * 10 ^ 6) (6 / 10 ^ 12) = Inr h \<and> R h = 1 \<and>
        E_pulse_eff h = 1 * ((5 / 10 ^ 6) / (59 * 10 ^ 6))"
    using substitution_rules [where rep = "59 * 10 ^ 6" and w = 430 and p = "5 / 10 ^ 6"
        and pd = "6 / 10 ^ 12"] h by blast
  from a b c e show ?thesis by blast
qed

text \<open>
  Claim C9. Every weight of the table is 2, the first rule leaves 2 alone whatever the
  pulse duration, and two evaluations that differ in the pulse duration only compute the
  same quantities (or raise the same exception).
\<close>

theorem pulse_duration_irrelevant:
  "snd ` set R_TABLE = {2} \<and> rule_short_pulse pd 2 = 2 \<and> rule_short_pulse pd' 2 = 2 \<and>
   quantities w p d rep pd = quantities w p d rep pd'"
proof -
  have tab: "snd ` set R_TABLE = {2}" by (simp add: R_TABLE_def)
  have same: "quantities w p d rep pd = quantities w p d rep pd'"
  proof (cases "rep = 0")
    case True
    then show ?thesis by (simp add: quantities_zero_rep)
  next
    case False
    obtain k b where kb: "nearest_nm w = Inr k" "k \<in> set (map fst R_TABLE)"
      "getitem B_TABLE k = Inr b"
      using quantities_cases [OF False, of w] by metis
    show ?thesis
      by (simp only: quantities_run [OF kb False])
  qed
  from tab same show ?thesis by (simp add: short_pulse_table)
qed

section \<open>The entry point\<close>

text \<open>
  Claim C8 as stated makes the entry point a function without input or output that
  returns a structured result. On the input 400 nm, 1 mW, 10 \<open>\<mu>\<close>s of the specification's
  own scenario, with the default rate and pulse duration, the function prints eighteen
  lines and returns \<^verbatim>\<open>None\<close>.
\<close>

theorem evaluation_prints_report_example:
  "iso15004_smallspot 400 (1 / 10 ^ 3) (1 / 10 ^ 5) (59 * 10 ^ 6) (6 / 10 ^ 12) =
     Inr ([Banner, Wavelength_line 400, Pulse_duration_line (6 / 10 ^ 12),
           Exposure_time_line (1 / 10 ^ 5), Power_line (1 / 10 ^ 3),
           Rep_rate_line (59 * 10 ^ 6), Spot_line,
           Spectral_header, R_line 2, B_line (6 / 100),
           Single_header, Pulse_energy_line (1 / (59 * 10 ^ 9)),
           Weighted_pulse_line (2 / (59 * 10 ^ 9)), Single_limit_line,
           Margin_line (Finite 1180),
           Not_applicable_line,
           Governing_line ''Thermal only (photochemical not applicable)'', Footer], ())"
proof -
  have k: "nearest_nm 400 = Inr 400" by (simp add: nearest_nm_eq min_from.simps)
  have m: "(400::int) \<in> set (map fst R_TABLE)" by (simp add: R_keys)
  have b: "getitem B_TABLE 400 = Inr (6 / 100)" by (simp add: getitem_def B_TABLE_def)
  have nz: "59 * 10 ^ 6 \<noteq> (0::real)" by simp
  note run = quantities_run [OF k m b nz, of "1 / 10 ^ 3" "1 / 10 ^ 5" "6 / 10 ^ 12"]
  show ?thesis
    by (simp only: iso15004_smallspot_def run)
       (simp add: and_then_def report_def gate_def classify_def long_dwell_table
          single_limit_def)
qed

text \<open>
  Claim C8, as the code has it. With a repetition rate other than zero the function
  computes the nearest wavelength, the weights after substitution, the single-pulse energy
  and margin, the thermal and photochemical quantities where the dwell time is above
  \<open>6.2e-4\<close> s, the governing hazard and the safe stopped-beam time; it prints them (the
  thermal and photochemical quantities and the safe time only above \<open>6.2e-4\<close> s) and
  returns \<^verbatim>\<open>None\<close>. The safe time is the photochemical limit divided by \<^verbatim>\<open>E_photo\<close>, infinite
  when \<^verbatim>\<open>E_photo\<close> is not positive, and it is the same for every dwell time.
\<close>

theorem evaluation_prints_report:
  assumes "rep \<noteq> 0"
  shows "\<exists>h out. quantities w p d rep pd = Inr h \<and>
           report p d rep pd h = Inr out \<and>
           iso15004_smallspot w p d rep pd = Inr (out, ()) \<and>
           nearest_nm w = Inr (nm h) \<and>
           R h = rule_long_dwell d (rule_short_pulse pd 2) \<and>
           getitem B_TABLE (nm h) = Inr (B h) \<and>
           {Wavelength_line (nm h), R_line (R h), B_line (B h), Pulse_energy_line (E_pulse h),
            Weighted_pulse_line (E_pulse_eff h), Margin_line (single_margin h),
            Governing_line (governing h)} \<subseteq> set out \<and>
           (62 / 100000 < d \<longrightarrow>
              (\<exists>l t x q. thermal_limit h = Some l \<and> thermal_margin h = Some t \<and>
                 H_photo h = Some x \<and> photo_margin h = Some q \<and>
                 {Weighted_energy_line (E_eff h), Thermal_limit_line l, Margin_line t,
                  E_photo_line (E_photo h), Dose_line x, Margin_line q,
                  Safe_time_line (t_safe_photo h)} \<subseteq> set out)) \<and>
           E_photo h = p * B h / A_cm2 \<and>
           t_safe_photo h =
             (if E_photo h > 0 then Finite (photo_limit / E_photo h) else Infinite) \<and>
           (\<forall>d' h'. quantities w p d' rep pd = Inr h' \<longrightarrow> t_safe_photo h' = t_safe_photo h)"
proof -
  obtain k b where kb: "nearest_nm w = Inr k" "k \<in> set (map fst R_TABLE)"
    "getitem B_TABLE k = Inr b"
    using quantities_cases [OF assms, of w] by metis
  note run = quantities_run [OF kb assms, of p _ pd]
  define h where "h = projr (quantities w p d rep pd)"
  define out where "out = projr (report p d rep pd h)"
  have q: "quantities w p d rep pd = Inr h"
    by (simp add: h_def run)
  have rp: "report p d rep pd h = Inr out"
    unfolding out_def h_def by (simp add: run report_def)
  have iso: "iso15004_smallspot w p d rep pd = Inr (out, ())"
    by (simp add: iso15004_smallspot_def and_then_def q rp)
  have basic: "nearest_nm w = Inr (nm h) \<and>
      R h = rule_long_dwell d (rule_short_pulse pd 2) \<and>
      getitem B_TABLE (nm h) = Inr (B h) \<and>
      E_photo h = p * B h / A_cm2 \<and>
      t_safe_photo h = (if E_photo h > 0 then Finite (photo_limit / E_photo h) else Infinite)"
    by (simp add: h_def run kb short_pulse_table)
  have lines: "{Wavelength_line (nm h), R_line (R h), B_line (B h), Pulse_energy_line (E_pulse h),
      Weighted_pulse_line (E_pulse_eff h), Margin_line (single_margin h),
      Governing_line (governing h)} \<subseteq> set out"
    unfolding out_def by (simp add: report_def h_def run)
  have gated: "62 / 100000 < d \<longrightarrow>
      (\<exists>l t x q. thermal_limit h = Some l \<and> thermal_margin h = Some t \<and>
         H_photo h = Some x \<and> photo_margin h = Some q \<and>
         {Weighted_energy_line (E_eff h), Thermal_limit_line l, Margin_line t,
          E_photo_line (E_photo h), Dose_line x, Margin_line q,
          Safe_time_line (t_safe_photo h)} \<subseteq> set out)"
  proof
    assume "62 / 100000 < d"
    then have g: "gate < d" by (simp add: gate_def)
    have "thermal_limit h \<noteq> None" "thermal_margin h \<noteq> None" "H_photo h \<noteq> None"
      "photo_margin h \<noteq> None"
      using g by (simp_all add: h_def run)
    then obtain l t x q where s: "thermal_limit h = Some l" "thermal_margin h = Some t"
      "H_photo h = Some x" "photo_margin h = Some q"
      by blast
    have "report p d rep pd h =
        Inr [Banner, Wavelength_line (nm h), Pulse_duration_line pd,
             Exposure_time_line d, Power_line p, Rep_rate_line rep, Spot_line,
             Spectral_header, R_line (R h), B_line (B h), Single_header,
             Pulse_energy_line (E_pulse h), Weighted_pulse_line (E_pulse_eff h),
             Single_limit_line, Margin_line (single_margin h), Thermal_header,
             Weighted_energy_line (E_eff h), Thermal_limit_line l, Margin_line t,
             Photo_header, E_photo_line (E_photo h), Dose_line x, Photo_limit_line,
             Margin_line q, Governing_line (governing h),
             Safe_time_line (t_safe_photo h), Footer]"
      using g by (simp add: report_def s)
    with rp have "out =
        [Banner, Wavelength_line (nm h), Pulse_duration_line pd,
         Exposure_time_line d, Power_line p, Rep_rate_line rep, Spot_line,
         Spectral_header, R_line (R h), B_line (B h), Single_header,
         Pulse_energy_line (E_pulse h), Weighted_pulse_line (E_pulse_eff h),
         Single_limit_line, Margin_line (single_margin h), Thermal_header,
         Weighted_energy_line (E_eff h), Thermal_limit_line l, Margin_line t,
         Photo_header, E_photo_line (E_photo h), Dose_line x, Photo_limit_line,
         Margin_line q, Governing_line (governing h),
         Safe_time_line (t_safe_photo h), Footer]"
      by simp
    then have "{Weighted_energy_line (E_eff h), Thermal_limit_line l, Margin_line t,
          E_photo_line (E_photo h), Dose_line x, Margin_line q,
          Safe_time_line (t_safe_photo h)} \<subseteq> set out"
      by simp
    with s show "\<exists>l t x q. thermal_limit h = Some l \<and> thermal_margin h = Some t \<and>
         H_photo h = Some x \<and> photo_margin h = Some q \<and>
         {Weighted_energy_line (E_eff h), Thermal_limit_line l, Margin_line t,
          E_photo_line (E_photo h), Dose_line x, Margin_line q,
          Safe_time_line (t_safe_photo h)} \<subseteq> set out"
      by blast
  qed
  have indep: "\<forall>d' h'. quantities w p d' rep pd = Inr h' \<longrightarrow> t_safe_photo h' = t_safe_photo h"
    by (simp add: h_def run)
  from basic have b1: "nearest_nm w = Inr (nm h)"
    and b2: "R h = rule_long_dwell d (rule_short_pulse pd 2)"
    and b3: "getitem B_TABLE (nm h) = Inr (B h)"
    and b4: "E_photo h = p * B h / A_cm2"
    and b5: "t_safe_photo h =
      (if E_photo h > 0 then Finite (photo_limit / E_photo h) else Infinite)"
    by blast+
  show ?thesis
    by (intro exI [of _ h] exI [of _ out] conjI q rp iso b1 b2 b3 lines gated b4 b5 indep)
qed

theorem evaluation_prints_report_witness:
  "(59 * 10 ^ 6 \<noteq> (0::real)) \<and>
   (\<exists>h out. quantities 430 (5 / 10 ^ 6) 1 (59 * 10 ^ 6) (6 / 10 ^ 12) = Inr h \<and>
      iso15004_smallspot 430 (5 / 10 ^ 6) 1 (59 * 10 ^ 6) (6 / 10 ^ 12) = Inr (out, ()) \<and>
      nearest_nm 430 = Inr (nm h) \<and>
      E_photo h = 5 / 10 ^ 6 * B h / A_cm2)"
proof (rule conjI)
  show h: "59 * 10 ^ 6 \<noteq> (0::real)" by simp
  from evaluation_prints_report [OF h, of 430 "5 / 10 ^ 6" 1 "6 / 10 ^ 12"]
  show "\<exists>h out. quantities 430 (5 / 10 ^ 6) 1 (59 * 10 ^ 6) (6 / 10 ^ 12) = Inr h \<and>
      iso15004_smallspot 430 (5 / 10 ^ 6) 1 (59 * 10 ^ 6) (6 / 10 ^ 12) = Inr (out, ()) \<and>
      nearest_nm 430 = Inr (nm h) \<and>
      E_photo h = 5 / 10 ^ 6 * B h / A_cm2"
    by (elim exE conjE) (intro exI conjI, assumption+)
qed

section \<open>The parser\<close>

text \<open>
  Claim C5 gives the prefix \<^verbatim>\<open>M\<close> the factor \<open>1e6\<close>, as the docstring of \<^verbatim>\<open>parse_value\<close>
  lists it. The function lower-cases its input first and its table has no entry for mega:
  \<^verbatim>\<open>5M\<close> is read as \<^verbatim>\<open>5m\<close>, five thousandths. The other prefixes, and a number without
  one, scale as the claim says.
\<close>

theorem parse_value_mega:
  "parse_value ''5M'' = Inr (5 / 10 ^ 3) \<and> parse_value ''5M'' = parse_value ''5m'' \<and>
   parse_value ''5u'' = Inr (5 / 10 ^ 6) \<and> parse_value ''10m'' = Inr (1 / 10 ^ 2) \<and>
   parse_value ''6p'' = Inr (6 / 10 ^ 12) \<and> parse_value ''2n'' = Inr (2 / 10 ^ 9) \<and>
   parse_value ''100'' = Inr 100 \<and> parse_value ''3T'' = Inr (3 * 10 ^ 12) \<and>
   parse_value ''3G'' = Inr (3 * 10 ^ 9) \<and> parse_value ''3k'' = Inr (3 * 10 ^ 3) \<and>
   parse_value ''3f'' = Inr (3 / 10 ^ 15)"
  by code_simp

lemma py_float_ok_iff: "(\<exists>x. py_float num = Inr x) \<longleftrightarrow> numeral_ok num"
proof -
  define ip where "ip = takeWhile (\<lambda>c. c \<noteq> CHR ''.'') num"
  define af where "af = dropWhile (\<lambda>c. c \<noteq> CHR ''.'') num"
  have num: "num = ip @ af" by (simp add: ip_def af_def)
  have nodot: "CHR ''.'' \<notin> set ip"
    unfolding ip_def using set_takeWhileD by fastforce
  then have f1: "filter (\<lambda>c. c \<noteq> CHR ''.'') ip = ip"
    and f2: "filter (\<lambda>c. c = CHR ''.'') ip = []"
    by (auto simp add: filter_id_conv filter_empty_conv)
  have pf: "py_float num =
      (case af of
         [] \<Rightarrow> if ip = [] then Inl ValueError else Inr (real (digits_val ip))
       | _ # fp \<Rightarrow>
           if CHR ''.'' \<in> set fp \<or> (ip = [] \<and> fp = []) then Inl ValueError
           else Inr (real (digits_val ip) + real (digits_val fp) / 10 ^ length fp))"
    by (simp only: py_float_def Let_def ip_def af_def)
  show ?thesis
  proof (cases af)
    case Nil
    with num have "num = ip" by simp
    then have "numeral_ok num \<longleftrightarrow> ip \<noteq> []"
      by (simp add: numeral_ok_def f1 f2)
    moreover have "(\<exists>x. py_float num = Inr x) \<longleftrightarrow> ip \<noteq> []"
      by (simp add: pf Nil)
    ultimately show ?thesis by simp
  next
    case (Cons c fp)
    have "\<not> (hd af \<noteq> CHR ''.'')"
      unfolding af_def by (rule hd_dropWhile) (use Cons af_def in simp)
    with Cons have c: "c = CHR ''.''" by simp
    have n: "num = ip @ CHR ''.'' # fp" using num Cons c by simp
    have ok: "numeral_ok num \<longleftrightarrow>
        (ip \<noteq> [] \<or> filter (\<lambda>c. c \<noteq> CHR ''.'') fp \<noteq> []) \<and> CHR ''.'' \<notin> set fp"
      by (auto simp add: numeral_ok_def n f1 f2 filter_empty_conv)
    have run: "(\<exists>x. py_float num = Inr x) \<longleftrightarrow>
        \<not> (CHR ''.'' \<in> set fp \<or> (ip = [] \<and> fp = []))"
      by (simp add: pf Cons)
    have "CHR ''.'' \<notin> set fp \<Longrightarrow> filter (\<lambda>c. c \<noteq> CHR ''.'') fp = fp"
      by (auto simp add: filter_id_conv)
    with ok run show ?thesis by auto
  qed
qed

lemma py_float_error: "py_float num = Inl e \<Longrightarrow> e = ValueError"
  by (auto simp add: py_float_def Let_def split: list.splits if_splits)

lemma getitem_scale: "map_of scale pre \<noteq> None \<Longrightarrow> \<exists>sc. getitem scale pre = Inr sc"
  by (cases "map_of scale pre") (simp_all add: getitem_def)

lemma scale_key: "pre \<in> fst ` set scale \<Longrightarrow> \<exists>sc. getitem scale pre = Inr sc"
proof -
  assume "pre \<in> fst ` set scale"
  then have "map_of scale pre \<noteq> None"
    by (simp only: map_of_eq_None_iff not_not)
  then show ?thesis by (rule getitem_scale)
qed

lemma scale_empty: "\<exists>sc. getitem scale [] = Inr sc"
  by (rule scale_key) (simp add: scale_def)

lemma scale_prefix: "is_prefixch c \<Longrightarrow> \<exists>sc. getitem scale [c] = Inr sc"
  by (rule scale_key) (auto simp add: scale_def is_prefixch_def)

lemma re_match_prefix:
  "re_match s = Some (num, prefix) \<Longrightarrow> \<exists>sc. getitem scale prefix = Inr sc"
  by (auto simp add: re_match_def Let_def scale_empty scale_prefix
      simp del: ex_simps split: if_splits list.splits)

lemma re_match_num:
  "re_match s = Some (num, prefix) \<Longrightarrow> num = takeWhile is_numch s \<and> num \<noteq> []"
  by (auto simp add: re_match_def Let_def split: if_splits)

lemma re_match_None: "re_match s = None \<longleftrightarrow> takeWhile is_numch s = []"
  by (simp add: re_match_def Let_def)

lemma numeral_ok_Nil: "\<not> numeral_ok []"
  by (simp add: numeral_ok_def)

text \<open>
  Claim C6 as stated has every string that is not a number with an optional prefix letter
  rejected. The match is anchored at the start only: \<^verbatim>\<open>5xyz\<close> is parsed as 5.
\<close>

theorem parse_value_trailing_text:
  "parse_value ''5xyz'' = Inr 5"
  by code_simp

text \<open>
  Claim C6, as the code has it. Take the input stripped and in lower case, and of that the
  longest leading run of digits and dots. The parser raises \<^verbatim>\<open>ValueError\<close> exactly when
  this run is not a decimal numeral (it is empty, has no digit or has more than one dot),
  and returns a value exactly when it is one; whatever follows the number, the white
  space after it and the prefix letter is ignored.
\<close>

theorem parse_value_fails_iff:
  "(parse_value s = Inl ValueError \<longleftrightarrow>
      \<not> numeral_ok (takeWhile is_numch (replace_micro (lower (strip s))))) \<and>
   ((\<exists>v. parse_value s = Inr v) \<longleftrightarrow>
      numeral_ok (takeWhile is_numch (replace_micro (lower (strip s)))))"
proof -
  define s' where "s' = replace_micro (lower (strip s))"
  have pv: "parse_value s =
      (case re_match s' of
         None \<Rightarrow> Inl ValueError
       | Some (num, prefix) \<Rightarrow>
           and_then (py_float num) (\<lambda>x.
           and_then (getitem scale prefix) (\<lambda>sc. Inr (x * sc))))"
    by (simp only: parse_value_def Let_def s'_def)
  have goal: "(parse_value s = Inl ValueError \<longleftrightarrow> \<not> numeral_ok (takeWhile is_numch s')) \<and>
      ((\<exists>v. parse_value s = Inr v) \<longleftrightarrow> numeral_ok (takeWhile is_numch s'))"
  proof (cases "re_match s'")
    case None
    then have "takeWhile is_numch s' = []" by (simp add: re_match_None)
    then show ?thesis by (simp add: pv None numeral_ok_Nil)
  next
    case (Some m)
    obtain num pre where m: "m = (num, pre)" by (cases m)
    have rm: "re_match s' = Some (num, pre)" using Some m by simp
    have num: "num = takeWhile is_numch s'" using re_match_num [OF rm] by simp
    obtain sc where sc: "getitem scale pre = Inr sc" using re_match_prefix [OF rm] by blast
    have pv': "parse_value s = and_then (py_float num) (\<lambda>x. Inr (x * sc))"
      by (simp add: pv rm sc and_then_def split: sum.splits)
    show ?thesis
    proof (cases "numeral_ok num")
      case True
      then obtain x where "py_float num = Inr x" using py_float_ok_iff by blast
      then have "parse_value s = Inr (x * sc)" by (simp add: pv' and_then_def)
      with True show ?thesis by (simp add: num [symmetric])
    next
      case False
      then have "\<not> (\<exists>x. py_float num = Inr x)" using py_float_ok_iff by blast
      then obtain e where e: "py_float num = Inl e" by (cases "py_float num") auto
      then have "e = ValueError" by (rule py_float_error)
      with e have "parse_value s = Inl ValueError" by (simp add: pv' and_then_def)
      with False show ?thesis by (simp add: num [symmetric])
    qed
  qed
  then show ?thesis by (simp only: s'_def)
qed

theorem parse_value_fails_iff_witness:
  "\<not> numeral_ok (takeWhile is_numch (replace_micro (lower (strip ''1.2.3'')))) \<and>
   parse_value ''1.2.3'' = Inl ValueError \<and>
   numeral_ok (takeWhile is_numch (replace_micro (lower (strip '' 10 m '')))) \<and>
   (\<exists>v. parse_value '' 10 m '' = Inr v)"
proof -
  have a: "\<not> numeral_ok (takeWhile is_numch (replace_micro (lower (strip ''1.2.3''))))"
    by code_simp
  have b: "numeral_ok (takeWhile is_numch (replace_micro (lower (strip '' 10 m ''))))"
    by code_simp
  from a parse_value_fails_iff [of "''1.2.3''"]
  have c: "parse_value ''1.2.3'' = Inl ValueError" by blast
  from b parse_value_fails_iff [of "'' 10 m ''"]
  have d: "\<exists>v. parse_value '' 10 m '' = Inr v" by blast
  from a b c d show ?thesis by blast
qed

end
